theory Spec2Isabelle
  imports Main "HOL-Library.Sublist"
begin

section \<open>Strings\<close>

text \<open>
  A Python string is a \<^typ>\<open>string\<close>: one \<^typ>\<open>char\<close> per character, the character with
  code point \<open>n\<close> being \<open>CHR n\<close>, for the code points 0 to 255. On these, \<open>str.lower\<close>
  works character by character: it maps \<open>A..Z\<close> to \<open>a..z\<close> and the upper-case letters
  U+00C0 to U+00DE (without the multiplication sign U+00D7) to the letter 32 above.
\<close>

definition upper_chars :: "char list" where
  "upper_chars = ''ABCDEFGHIJKLMNOPQRSTUVWXYZ'' @
     [CHR 0xC0, CHR 0xC1, CHR 0xC2, CHR 0xC3, CHR 0xC4, CHR 0xC5, CHR 0xC6, CHR 0xC7,
      CHR 0xC8, CHR 0xC9, CHR 0xCA, CHR 0xCB, CHR 0xCC, CHR 0xCD, CHR 0xCE, CHR 0xCF,
      CHR 0xD0, CHR 0xD1, CHR 0xD2, CHR 0xD3, CHR 0xD4, CHR 0xD5, CHR 0xD6, CHR 0xD8,
      CHR 0xD9, CHR 0xDA, CHR 0xDB, CHR 0xDC, CHR 0xDD, CHR 0xDE]"

definition lower_chars :: "char list" where
  "lower_chars = ''abcdefghijklmnopqrstuvwxyz'' @
     [CHR 0xE0, CHR 0xE1, CHR 0xE2, CHR 0xE3, CHR 0xE4, CHR 0xE5, CHR 0xE6, CHR 0xE7,
      CHR 0xE8, CHR 0xE9, CHR 0xEA, CHR 0xEB, CHR 0xEC, CHR 0xED, CHR 0xEE, CHR 0xEF,
      CHR 0xF0, CHR 0xF1, CHR 0xF2, CHR 0xF3, CHR 0xF4, CHR 0xF5, CHR 0xF6, CHR 0xF8,
      CHR 0xF9, CHR 0xFA, CHR 0xFB, CHR 0xFC, CHR 0xFD, CHR 0xFE]"

definition lower_char :: "char \<Rightarrow> char" where
  "lower_char c = (case map_of (zip upper_chars lower_chars) c of None \<Rightarrow> c | Some d \<Rightarrow> d)"

definition py_lower :: "string \<Rightarrow> string" where
  "py_lower s = map lower_char s"

text \<open>
  The whitespace class of \<open>str.strip\<close>, \<open>str.isspace\<close> and the regular expression
  \<open>\s\<close>: TAB, LF, VT, FF, CR, FS, GS, RS, US, space, NEL (U+0085) and the no-break
  space (U+00A0).
\<close>

definition is_space :: "char \<Rightarrow> bool" where
  "is_space c \<longleftrightarrow> c \<in> set [CHR 0x09, CHR 0x0A, CHR 0x0B, CHR 0x0C, CHR 0x0D,
                               CHR 0x1C, CHR 0x1D, CHR 0x1E, CHR 0x1F, CHR 0x20,
                               CHR 0x85, CHR 0xA0]"

definition py_strip :: "string \<Rightarrow> string" where
  "py_strip s = rev (dropWhile is_space (rev (dropWhile is_space s)))"

text \<open>\<open>sep.join(xs)\<close>.\<close>

fun py_join :: "string \<Rightarrow> string list \<Rightarrow> string" where
  "py_join sep [] = []"
| "py_join sep [x] = x"
| "py_join sep (x # y # ys) = x @ sep @ py_join sep (y # ys)"

text \<open>\<open>k in t\<close> on strings: \<open>k\<close> occurs in \<open>t\<close> as a contiguous substring.\<close>

fun py_in :: "string \<Rightarrow> string \<Rightarrow> bool" where
  "py_in k [] = (k = [])"
| "py_in k (c # cs) = (prefix k (c # cs) \<or> py_in k cs)"

text \<open>\<open>re.sub(r'\s+', ' ', s)\<close>: every maximal run of whitespace becomes one space.\<close>

function collapse_ws :: "string \<Rightarrow> string" where
  "collapse_ws [] = []"
| "collapse_ws (c # cs) =
     (if is_space c then CHR 0x20 # collapse_ws (dropWhile is_space cs)
      else c # collapse_ws cs)"
  by pat_completeness auto
termination
  by (relation "measure length") (auto simp: length_dropWhile_le less_Suc_eq_le)

text \<open>\<open>os.path.basename\<close> (POSIX): everything after the last slash.\<close>

definition basename :: "string \<Rightarrow> string" where
  "basename p = rev (takeWhile (\<lambda>c. c \<noteq> CHR ''/'') (rev p))"

section \<open>Dictionaries\<close>

text \<open>
  A Python \<open>dict\<close> is an association list in insertion order with distinct keys:
  \<open>d.get(k)\<close> is \<^term>\<open>map_of d k\<close>, and \<open>d[k] = v\<close> overwrites in place or appends.
\<close>

fun dict_set :: "('k \<times> 'v) list \<Rightarrow> 'k \<Rightarrow> 'v \<Rightarrow> ('k \<times> 'v) list" where
  "dict_set [] k v = [(k, v)]"
| "dict_set ((k', v') # d) k v =
     (if k' = k then (k, v) # d else (k', v') # dict_set d k v)"

datatype py_error = OSError | AttributeError | IndexError

section \<open>Files and extraction\<close>

text \<open>
  What \<open>page.extract_text()\<close> does on one page: it raises, or returns \<open>None\<close> or a string.
  A page of the file either yields a page object or is \<open>Broken\<close>: building its page
  object raises. A PDF either cannot be opened by \<open>pdfplumber.open\<close> or opens with a
  sequence of pages.
\<close>

datatype page = Raises | Returns "string option"

datatype page_object = Broken | Page page

datatype pdf = Unreadable | Readable "page_object list"

text \<open>
  The file system maps a path to the file's modification time (\<open>os.path.getmtime\<close>;
  a number, here an integer) and PDF content. A missing path makes \<open>getmtime\<close> raise
  \<open>OSError\<close> and \<open>pdfplumber.open\<close> raise as well.
\<close>

record disk_file =
  f_mtime :: int
  f_pdf :: pdf

type_synonym filesystem = "string \<Rightarrow> disk_file option"

definition page_text :: "page \<Rightarrow> string" where
  "page_text p =
     (case p of
        Raises \<Rightarrow> []
      | Returns None \<Rightarrow> []
      | Returns (Some t) \<Rightarrow> if t = [] then [] else collapse_ws (py_strip t))"

text \<open>
  Evaluating \<open>pdf.pages\<close> builds the page object of every page before the loop starts,
  and raises if one of them cannot be built.
\<close>

fun pdf_pages :: "page_object list \<Rightarrow> page list option" where
  "pdf_pages [] = Some []"
| "pdf_pages (Broken # rest) = None"
| "pdf_pages (Page p # rest) = map_option ((#) p) (pdf_pages rest)"

text \<open>The page loop of \<open>extract_pdf_text_pdfplumber\<close>, appending to \<open>pages_text\<close>.\<close>

fun extract_pages :: "page list \<Rightarrow> string list \<Rightarrow> string list" where
  "extract_pages [] pages_text = pages_text"
| "extract_pages (p # ps) pages_text = extract_pages ps (pages_text @ [page_text p])"

text \<open>
  The inner handler covers \<open>page.extract_text()\<close> only; \<open>pdfplumber.open\<close> and
  \<open>pdf.pages\<close> are covered by the outer handler, which returns \<open>[]\<close>.
\<close>

definition extract_pdf_text_pdfplumber :: "filesystem \<Rightarrow> string \<Rightarrow> string list" where
  "extract_pdf_text_pdfplumber fs pdf_path =
     (case fs pdf_path of
        None \<Rightarrow> []
      | Some f \<Rightarrow>
          (case f_pdf f of
             Unreadable \<Rightarrow> []
           | Readable objs \<Rightarrow>
               (case pdf_pages objs of None \<Rightarrow> [] | Some ps \<Rightarrow> extract_pages ps [])))"

section \<open>The cache store\<close>

text \<open>
  \<open>pdf_cache\<close> is one dict holding a page list per file name and, under the key
  \<open>'_metadata'\<close>, a dict from file name to \<open>{'mtime': ..., 'processed_at': ...}\<close>.
  A metadata record read back from disk may lack a field.
\<close>

record file_meta =
  meta_mtime :: "int option"
  meta_processed_at :: "string option"

datatype cache_value = Pages "string list" | Metadata "(string \<times> file_meta) list"

type_synonym pdf_cache = "(string \<times> cache_value) list"

text \<open>\<open>cache_metadata.get(file_name, {}).get('mtime', 0)\<close>; a list has no \<open>get\<close>.\<close>

fun cached_mtime :: "cache_value \<Rightarrow> string \<Rightarrow> py_error + int" where
  "cached_mtime (Metadata m) file_name =
     Inr (case map_of m file_name of
            None \<Rightarrow> 0
          | Some e \<Rightarrow> (case meta_mtime e of None \<Rightarrow> 0 | Some t \<Rightarrow> t))"
| "cached_mtime (Pages ps) file_name = Inl AttributeError"

fun check_files ::
  "filesystem \<Rightarrow> cache_value \<Rightarrow> string list \<Rightarrow> string list \<Rightarrow> py_error + string list" where
  "check_files fs cache_metadata [] updated_files = Inr updated_files"
| "check_files fs cache_metadata (pdf_file_path # rest) updated_files =
     (case fs pdf_file_path of
        None \<Rightarrow> Inl OSError
      | Some f \<Rightarrow>
          (case cached_mtime cache_metadata (basename pdf_file_path) of
             Inl e \<Rightarrow> Inl e
           | Inr t \<Rightarrow>
               check_files fs cache_metadata rest
                 (if f_mtime f > t then updated_files @ [pdf_file_path] else updated_files)))"

definition check_for_updates ::
  "filesystem \<Rightarrow> string list \<Rightarrow> pdf_cache \<Rightarrow> py_error + string list" where
  "check_for_updates fs pdf_files pdf_cache =
     check_files fs
       (case map_of pdf_cache ''_metadata'' of None \<Rightarrow> Metadata [] | Some v \<Rightarrow> v)
       pdf_files []"

text \<open>\<open>new_files\<close> of \<open>main\<close>: the files whose base name is no key of the cache.\<close>

definition new_files :: "string list \<Rightarrow> pdf_cache \<Rightarrow> string list" where
  "new_files pdf_files pdf_cache =
     filter (\<lambda>f. basename f \<notin> fst ` set pdf_cache) pdf_files"

text \<open>
  One iteration of the \<open>as_completed\<close> loop of \<open>process_pdfs_batch\<close> for the finished
  task of \<open>pdf_file_path\<close>, at clock reading \<open>now\<close>. The task never raises (the
  extractor catches every exception), so the pages entry is always written. The
  right-hand side of the metadata assignment is evaluated first: a failing \<open>getmtime\<close>
  is caught by the loop's handler and leaves the pages entry written; so is the
  \<open>TypeError\<close> of a subscript assignment when \<open>'_metadata'\<close> holds a list.
\<close>

definition apply_result :: "filesystem \<Rightarrow> string \<Rightarrow> string \<Rightarrow> pdf_cache \<Rightarrow> pdf_cache" where
  "apply_result fs now pdf_file_path pdf_cache =
     (let file_name = basename pdf_file_path;
          c1 = dict_set pdf_cache file_name (Pages (extract_pdf_text_pdfplumber fs pdf_file_path))
      in case fs pdf_file_path of
           None \<Rightarrow> c1
         | Some f \<Rightarrow>
             (case map_of c1 ''_metadata'' of
                Some (Metadata m) \<Rightarrow>
                  dict_set c1 ''_metadata''
                    (Metadata (dict_set m file_name
                       \<lparr>meta_mtime = Some (f_mtime f), meta_processed_at = Some now\<rparr>))
              | _ \<Rightarrow> c1))"

text \<open>
  The loop over the completed tasks: \<open>completed\<close> is the order in which
  \<open>as_completed\<close> yields them, \<open>clock k\<close> is \<open>datetime.now().isoformat()\<close> at the
  \<open>k\<close>-th iteration.
\<close>

fun apply_results ::
  "filesystem \<Rightarrow> (nat \<Rightarrow> string) \<Rightarrow> nat \<Rightarrow> string list \<Rightarrow> pdf_cache \<Rightarrow> pdf_cache" where
  "apply_results fs clock k [] pdf_cache = pdf_cache"
| "apply_results fs clock k (p # ps) pdf_cache =
     apply_results fs clock (Suc k) ps (apply_result fs (clock k) p pdf_cache)"

text \<open>
  \<open>process_pdfs_batch\<close>; one task is submitted per element of \<open>pdf_files\<close>, and
  \<open>completed\<close> lists the same paths in completion order.
\<close>

definition process_pdfs_batch ::
  "filesystem \<Rightarrow> (nat \<Rightarrow> string) \<Rightarrow> string list \<Rightarrow> string list \<Rightarrow> pdf_cache \<Rightarrow> pdf_cache" where
  "process_pdfs_batch fs clock completed pdf_files pdf_cache =
     (if pdf_files = [] then pdf_cache
      else apply_results fs clock 0 completed
             (if ''_metadata'' \<in> fst ` set pdf_cache then pdf_cache
              else dict_set pdf_cache ''_metadata'' (Metadata [])))"

text \<open>The modification time recorded for a file name in \<open>'_metadata'\<close>, 0 when absent.\<close>

definition recorded_mtime :: "pdf_cache \<Rightarrow> string \<Rightarrow> int" where
  "recorded_mtime pdf_cache file_name =
     (case map_of pdf_cache ''_metadata'' of
        Some (Metadata m) \<Rightarrow>
          (case map_of m file_name of
             None \<Rightarrow> 0
           | Some e \<Rightarrow> (case meta_mtime e of None \<Rightarrow> 0 | Some t \<Rightarrow> t))
      | _ \<Rightarrow> 0)"

definition live_mtime :: "filesystem \<Rightarrow> string \<Rightarrow> int" where
  "live_mtime fs p = (case fs p of None \<Rightarrow> 0 | Some f \<Rightarrow> f_mtime f)"

section \<open>The prefilter index\<close>

text \<open>
  The SQLite file \<open>text_index.db\<close>: absent, unusable (every statement raises
  \<open>sqlite3.Error\<close>), or holding the rows \<open>(filename, full_text, page_count)\<close> of table
  \<open>text_index\<close>.
\<close>

datatype index_db = NoFile | Unusable | Table "(string \<times> string \<times> nat) list"

text \<open>
  Iterating a cache value, as \<open>' '.join(pages)\<close>, \<open>len(pages)\<close> and \<open>enumerate(pages)\<close>
  do: the elements of a list, the keys of a dict.
\<close>

definition as_seq :: "cache_value \<Rightarrow> string list" where
  "as_seq v = (case v of Pages ps \<Rightarrow> ps | Metadata m \<Rightarrow> map fst m)"

text \<open>\<open>INSERT OR REPLACE\<close> on the primary key \<open>filename\<close>.\<close>

definition insert_or_replace ::
  "(string \<times> string \<times> nat) list \<Rightarrow> string \<times> string \<times> nat \<Rightarrow> (string \<times> string \<times> nat) list" where
  "insert_or_replace rows r = filter (\<lambda>r'. fst r' \<noteq> fst r) rows @ [r]"

text \<open>The insertion loop of \<open>create_text_index_db\<close> over \<open>pdf_cache.items()\<close>.\<close>

fun index_rows ::
  "pdf_cache \<Rightarrow> (string \<times> string \<times> nat) list \<Rightarrow> (string \<times> string \<times> nat) list" where
  "index_rows [] rows = rows"
| "index_rows ((pdf_file, pages) # rest) rows =
     (if pdf_file = ''_metadata'' then index_rows rest rows
      else index_rows rest
             (insert_or_replace rows
                (pdf_file, py_lower (py_join '' '' (as_seq pages)), length (as_seq pages))))"

text \<open>
  \<open>create_text_index_db\<close> on a usable database: the table is emptied
  (\<open>DELETE FROM text_index\<close>) and refilled from the cache.
\<close>

definition create_text_index_db :: "pdf_cache \<Rightarrow> index_db" where
  "create_text_index_db pdf_cache = Table (index_rows pdf_cache [])"

text \<open>
  SQLite's \<open>LIKE\<close> without \<open>ESCAPE\<close>: \<open>%\<close> matches any run of characters, \<open>_\<close> any one
  character, every other pattern character itself, the letters \<open>A..Z\<close> and \<open>a..z\<close>
  without regard to case.
\<close>

definition ascii_fold :: "char \<Rightarrow> char" where
  "ascii_fold c = (if c \<in> set ''ABCDEFGHIJKLMNOPQRSTUVWXYZ'' then lower_char c else c)"

fun like_match :: "string \<Rightarrow> string \<Rightarrow> bool" where
  "like_match [] s = (s = [])"
| "like_match (p # ps) [] = (p = CHR ''%'' \<and> like_match ps [])"
| "like_match (p # ps) (c # cs) =
     (if p = CHR ''%'' then like_match ps (c # cs) \<or> like_match (p # ps) cs
      else (p = c \<or> ascii_fold p = ascii_fold c \<or> p = CHR ''_'') \<and> like_match ps cs)"

text \<open>
  SQLite reads both operands of \<open>LIKE\<close> as NUL-terminated strings: what follows the
  first NUL character of the pattern or of the column value is not looked at.
\<close>

definition c_string :: "string \<Rightarrow> string" where
  "c_string s = takeWhile (\<lambda>c. c \<noteq> CHR 0x00) s"

definition sql_like :: "string \<Rightarrow> string \<Rightarrow> bool" where
  "sql_like pattern s = like_match (c_string pattern) (c_string s)"

text \<open>
  The number of bytes of the UTF-8 encoding; a \<open>LIKE\<close> pattern of more than 50000 bytes
  (\<open>SQLITE_MAX_LIKE_PATTERN_LENGTH\<close>) makes the statement raise as soon as a row is
  tested.
\<close>

definition utf8_length :: "string \<Rightarrow> nat" where
  "utf8_length s = length s + length (filter (\<lambda>c. 128 \<le> (of_char c :: nat)) s)"

definition search_text_index :: "index_db \<Rightarrow> string \<Rightarrow> string list option" where
  "search_text_index db keyword =
     (case db of
        NoFile \<Rightarrow> None
      | Unusable \<Rightarrow> None
      | Table rows \<Rightarrow>
          (let keyword_pattern = ''%'' @ py_lower keyword @ ''%''
           in if rows \<noteq> [] \<and> 50000 < utf8_length keyword_pattern then None
              else Some (map fst (filter (\<lambda>row. sql_like keyword_pattern (fst (snd row))) rows))))"

section \<open>Search\<close>

definition CONTEXT_CHARS :: nat where
  "CONTEXT_CHARS = 150"

text \<open>
  \<open>re.compile(re.escape(k)).finditer(t)\<close>: the start positions of the occurrences of
  the literal \<open>k\<close> in \<open>t\<close>, found from left to right, the scan resuming behind each
  occurrence found; the empty pattern matches at every position, the end included.
  \<open>i\<close> is the position of the first character of the text still to scan.
\<close>

function finditer :: "string \<Rightarrow> string \<Rightarrow> nat \<Rightarrow> nat list" where
  "finditer k [] i = (if k = [] then [i] else [])"
| "finditer k (c # cs) i =
     (if k = [] then i # finditer k cs (Suc i)
      else if prefix k (c # cs) then i # finditer k (drop (length k) (c # cs)) (i + length k)
      else finditer k cs (Suc i))"
  by pat_completeness auto
termination
  by (relation "measure (\<lambda>(k, t, i). length t)") auto

text \<open>The replacement \<open>'<span style=...>\1</span>'\<close> around the matched text.\<close>

definition span :: "string \<Rightarrow> string" where
  "span m = ''<span style='' @ [CHR 0x27]
            @ ''background-color: yellow; color: black; font-weight: bold; padding: 2px;''
            @ [CHR 0x27] @ ''>'' @ m @ ''</span>''"

text \<open>
  \<open>re.sub('(' + re.escape(k) + ')', span, t, flags=re.IGNORECASE)\<close>: the same scan,
  comparing without regard to case, each occurrence replaced by itself in \<open>span\<close>.
\<close>

function highlight :: "string \<Rightarrow> string \<Rightarrow> string" where
  "highlight k [] = (if k = [] then span [] else [])"
| "highlight k (c # cs) =
     (if k = [] then span [] @ c # highlight k cs
      else if prefix (py_lower k) (py_lower (c # cs))
        then span (take (length k) (c # cs)) @ highlight k (drop (length k) (c # cs))
      else c # highlight k cs)"
  by pat_completeness auto
termination
  by (relation "measure (\<lambda>(k, t). length t)") auto

declare highlight.simps [simp del]

text \<open>
  The first \<open>while\<close> loop of \<open>search_with_context\<close>; indexing \<open>original_text\<close> at or
  beyond its length raises \<open>IndexError\<close>.
\<close>

definition boundary :: "char \<Rightarrow> bool" where
  "boundary c \<longleftrightarrow> c \<in> set [CHR 0x20, CHR 0x0A, CHR 0x09]"

fun snap_start :: "string \<Rightarrow> nat \<Rightarrow> py_error + nat" where
  "snap_start original_text 0 = Inr 0"
| "snap_start original_text (Suc n) =
     (if length original_text \<le> Suc n then Inl IndexError
      else if boundary (original_text ! Suc n) then Inr (Suc n)
      else snap_start original_text n)"

text \<open>The second \<open>while\<close> loop.\<close>

function snap_end :: "string \<Rightarrow> nat \<Rightarrow> nat" where
  "snap_end original_text context_end =
     (if context_end < length original_text \<and> \<not> boundary (original_text ! context_end)
      then snap_end original_text (Suc context_end) else context_end)"
  by pat_completeness auto
termination
  by (relation "measure (\<lambda>(t, e). length t - e)") auto

declare snap_end.simps [simp del]

text \<open>The body of the loop over the match positions: the highlighted context of one match.\<close>

definition context_at :: "string \<Rightarrow> string \<Rightarrow> string \<Rightarrow> nat \<Rightarrow> py_error + string" where
  "context_at keyword text original_text pos =
     (case snap_start original_text (max 0 (pos - CONTEXT_CHARS)) of
        Inl e \<Rightarrow> Inl e
      | Inr context_start \<Rightarrow>
          (let context_end =
                 snap_end original_text (min (length text) (pos + length keyword + CONTEXT_CHARS));
               context =
                 py_strip (take (context_end - context_start) (drop context_start original_text))
           in Inr (highlight keyword context)))"

fun contexts_loop ::
  "string \<Rightarrow> string \<Rightarrow> string \<Rightarrow> nat list \<Rightarrow> string list \<Rightarrow> py_error + string list" where
  "contexts_loop keyword text original_text [] results = Inr results"
| "contexts_loop keyword text original_text (pos # matches) results =
     (case context_at keyword text original_text pos of
        Inl e \<Rightarrow> Inl e
      | Inr highlighted_context \<Rightarrow>
          contexts_loop keyword text original_text matches (results @ [highlighted_context]))"

definition search_with_context :: "string \<Rightarrow> string \<Rightarrow> string \<Rightarrow> py_error + string list" where
  "search_with_context keyword text original_text =
     contexts_loop keyword text original_text
       (finditer (py_lower keyword) (py_lower text) 0) []"

text \<open>A match record; \<open>get_pdf_path\<close> looks the file name up in \<open>_file_path_cache\<close>.\<close>

record match =
  m_file :: string
  m_page_number :: nat
  m_context :: string
  m_full_text :: string
  m_full_path :: "string option"

definition get_pdf_path :: "(string \<Rightarrow> string option) \<Rightarrow> string \<Rightarrow> string option" where
  "get_pdf_path file_path_cache filename =
     (case file_path_cache filename of
        Some p \<Rightarrow> if p \<noteq> [] then Some p else file_path_cache (basename filename)
      | None \<Rightarrow> file_path_cache (basename filename))"

definition search_single_page ::
  "(string \<Rightarrow> string option) \<Rightarrow> string \<Rightarrow> string \<Rightarrow> nat \<times> string \<Rightarrow> py_error + match list" where
  "search_single_page file_path_cache pdf_file keyword page_data =
     (case page_data of (page_number, ptext) \<Rightarrow>
        if \<not> py_in (py_lower keyword) (py_lower ptext) then Inr []
        else (case search_with_context keyword ptext ptext of
                Inl e \<Rightarrow> Inl e
              | Inr contexts \<Rightarrow>
                  Inr (map (\<lambda>context.
                         \<lparr>m_file = pdf_file, m_page_number = page_number + 1,
                          m_context = context, m_full_text = ptext,
                          m_full_path = get_pdf_path file_path_cache pdf_file\<rparr>) contexts)))"

text \<open>
  \<open>search_pages_parallel\<close>: the pages are searched in page order and the results
  concatenated; \<open>executor.map\<close>, used beyond 20 pages, yields the results in the order
  of its input as well.
\<close>

fun search_pages ::
  "(string \<Rightarrow> string option) \<Rightarrow> string \<Rightarrow> string \<Rightarrow> (nat \<times> string) list \<Rightarrow> match list
     \<Rightarrow> py_error + match list" where
  "search_pages file_path_cache pdf_file keyword [] page_results = Inr page_results"
| "search_pages file_path_cache pdf_file keyword (page_data # rest) page_results =
     (case search_single_page file_path_cache pdf_file keyword page_data of
        Inl e \<Rightarrow> Inl e
      | Inr result_list \<Rightarrow>
          search_pages file_path_cache pdf_file keyword rest (page_results @ result_list))"

definition search_pages_parallel ::
  "(string \<Rightarrow> string option) \<Rightarrow> string \<Rightarrow> string list \<Rightarrow> string \<Rightarrow> py_error + match list" where
  "search_pages_parallel file_path_cache pdf_file pages keyword =
     search_pages file_path_cache pdf_file keyword (enumerate 0 pages) []"

text \<open>
  \<open>smart_search\<close>, with the accesses it makes to the index and to the cache: the
  index query, listing the keys of the cache, and looking a key up.
\<close>

datatype access = QueryIndex string | ListKeys | Lookup string

fun search_candidates ::
  "(string \<Rightarrow> string option) \<Rightarrow> string \<Rightarrow> pdf_cache \<Rightarrow> string list \<Rightarrow> match list \<Rightarrow> access list
     \<Rightarrow> (py_error + match list) \<times> access list" where
  "search_candidates file_path_cache keyword pdf_cache [] results trace = (Inr results, trace)"
| "search_candidates file_path_cache keyword pdf_cache (pdf_file # rest) results trace =
     (case map_of pdf_cache pdf_file of
        None \<Rightarrow>
          search_candidates file_path_cache keyword pdf_cache rest results
            (trace @ [Lookup pdf_file])
      | Some pages \<Rightarrow>
          (case search_pages_parallel file_path_cache pdf_file (as_seq pages) keyword of
             Inl e \<Rightarrow> (Inl e, trace @ [Lookup pdf_file])
           | Inr page_results \<Rightarrow>
               search_candidates file_path_cache keyword pdf_cache rest
                 (results @ page_results) (trace @ [Lookup pdf_file])))"

definition smart_search ::
  "(string \<Rightarrow> string option) \<Rightarrow> index_db \<Rightarrow> string \<Rightarrow> pdf_cache
     \<Rightarrow> (py_error + match list) \<times> access list" where
  "smart_search file_path_cache db keyword pdf_cache =
     (if py_strip keyword = [] then (Inr [], [])
      else
        (let keyword = py_strip keyword in
         case search_text_index db keyword of
           None \<Rightarrow>
             search_candidates file_path_cache keyword pdf_cache
               (filter (\<lambda>k. k \<noteq> ''_metadata'') (map fst pdf_cache)) []
               [QueryIndex keyword, ListKeys]
         | Some candidate_files \<Rightarrow>
             search_candidates file_path_cache keyword pdf_cache candidate_files []
               [QueryIndex keyword]))"

section \<open>Grouping\<close>

text \<open>\<open>file_groups[result['file']].append(result)\<close> on the \<open>defaultdict(list)\<close>.\<close>

fun group_append :: "(string \<times> match list) list \<Rightarrow> match \<Rightarrow> (string \<times> match list) list" where
  "group_append [] r = [(m_file r, [r])]"
| "group_append ((f, rs) # groups) r =
     (if f = m_file r then (f, rs @ [r]) # groups else (f, rs) # group_append groups r)"

text \<open>
  \<open>sorted(xs, key=key, reverse=True)\<close>: the list is reversed, sorted stably by
  ascending key, and reversed again.
\<close>

definition py_sorted_reverse :: "('a \<Rightarrow> nat) \<Rightarrow> 'a list \<Rightarrow> 'a list" where
  "py_sorted_reverse key xs = rev (sort_key key (rev xs))"

definition group_results_by_file :: "match list \<Rightarrow> (string \<times> match list) list" where
  "group_results_by_file results =
     py_sorted_reverse (\<lambda>x. length (snd x)) (foldl group_append [] results)"

section \<open>Example inputs\<close>

definition five_pages :: "page_object list" where
  "five_pages = [Page (Returns (Some ''one'')), Page (Returns (Some '' two  x '')), Page Raises,
                 Page (Returns (Some ''four'')), Page (Returns (Some ''five''))]"

definition five_pages_broken :: "page_object list" where
  "five_pages_broken = [Page (Returns (Some ''one'')), Page (Returns (Some '' two  x '')), Broken,
                 Page (Returns (Some ''four'')), Page (Returns (Some ''five''))]"

definition fs5 :: filesystem where
  "fs5 = (\<lambda>p. if p = ''/d/a.pdf''
            then Some \<lparr>f_mtime = 7, f_pdf = Readable five_pages\<rparr>
          else if p = ''/d/m.pdf''
            then Some \<lparr>f_mtime = 7, f_pdf = Readable five_pages_broken\<rparr>
          else None)"

definition fs_bad :: filesystem where
  "fs_bad = (\<lambda>p. if p = ''/d/bad.pdf''
               then Some \<lparr>f_mtime = 5, f_pdf = Unreadable\<rparr> else None)"

definition fs_two :: filesystem where
  "fs_two = (\<lambda>p. if p = ''/d/a.pdf'' then Some \<lparr>f_mtime = 10, f_pdf = Readable []\<rparr>
               else if p = ''/d/b.pdf'' then Some \<lparr>f_mtime = 20, f_pdf = Readable []\<rparr>
               else None)"

definition cache_two :: pdf_cache where
  "cache_two =
     [(''a.pdf'', Pages []), (''b.pdf'', Pages []),
      (''_metadata'', Metadata
         [(''a.pdf'', \<lparr>meta_mtime = Some 10, meta_processed_at = Some ''t''\<rparr>),
          (''b.pdf'', \<lparr>meta_mtime = Some 15, meta_processed_at = Some ''t''\<rparr>)])]"

definition pc0 :: "string \<Rightarrow> string option" where
  "pc0 = (\<lambda>f. None)"

definition cache_nul :: pdf_cache where
  "cache_nul = [(''d.pdf'', Pages [''a'' @ [CHR 0x00] @ ''b'', ''the quick brown FOX jumps'']),
                (''_metadata'', Metadata [])]"

section \<open>Extraction\<close>

lemma extract_pages_append: "extract_pages ps acc = acc @ map page_text ps"
  by (induction ps arbitrary: acc) auto

lemma pdf_pages_Some: "pdf_pages objs = Some ps \<longleftrightarrow> objs = map Page ps"
proof (induction objs arbitrary: ps)
  case Nil
  show ?case by auto
next
  case (Cons o1 objs)
  show ?case
  proof (cases o1)
    case Broken
    then show ?thesis by auto
  next
    case (Page p)
    with Cons show ?thesis by (cases ps) auto
  qed
qed

text \<open>
  When every page object can be built, the result has one slot per page, in page order,
  holding the page's normalised text, and the empty string where \<open>extract_text\<close> raises
  or returns nothing.
\<close>

lemma extract_buildable_pages:
  assumes "fs pdf_path = Some f" and "f_pdf f = Readable (map Page ps)"
  shows "extract_pdf_text_pdfplumber fs pdf_path = map page_text ps"
proof -
  have "pdf_pages (map Page ps) = Some ps" by (simp add: pdf_pages_Some)
  with assms show ?thesis
    by (simp add: extract_pdf_text_pdfplumber_def extract_pages_append)
qed

lemma page_text_cases:
  "page_text Raises = []" "page_text (Returns None) = []" "page_text (Returns (Some [])) = []"
  "t \<noteq> [] \<Longrightarrow> page_text (Returns (Some t)) = collapse_ws (py_strip t)"
  by (simp_all add: page_text_def)

text \<open>
  C6. The five-page document whose third page makes \<open>extract_text\<close> raise yields five
  slots, the third empty and the others holding the normalised page texts. The same
  document with a third page whose page object cannot be built opens, has five pages,
  and yields the empty sequence: the fault of one page discards the whole document.
\<close>

theorem broken_page_discards_document:
  "extract_pdf_text_pdfplumber fs5 ''/d/a.pdf'' = [''one'', ''two x'', [], ''four'', ''five'']
   \<and> extract_pdf_text_pdfplumber fs5 ''/d/m.pdf'' = []"
  by (simp add: fs5_def five_pages_def five_pages_broken_def extract_pdf_text_pdfplumber_def
      page_text_def py_strip_def is_space_def)

section \<open>Staleness\<close>

lemma check_files_filter:
  assumes "\<forall>p \<in> set files. fs p \<noteq> None"
  shows "check_files fs (Metadata m) files upd =
     Inr (upd @ filter (\<lambda>p. live_mtime fs p >
             (case map_of m (basename p) of None \<Rightarrow> 0
              | Some e \<Rightarrow> (case meta_mtime e of None \<Rightarrow> 0 | Some t \<Rightarrow> t))) files)"
  using assms
  by (induction files arbitrary: upd) (auto simp: live_mtime_def split: option.splits)

lemma check_for_updates_filter:
  assumes "\<forall>p \<in> set pdf_files. fs p \<noteq> None"
      and "\<forall>ps. map_of pdf_cache ''_metadata'' \<noteq> Some (Pages ps)"
  shows "check_for_updates fs pdf_files pdf_cache =
     Inr (filter (\<lambda>p. live_mtime fs p > recorded_mtime pdf_cache (basename p)) pdf_files)"
proof (cases "map_of pdf_cache ''_metadata''")
  case None
  have "check_files fs (Metadata []) pdf_files [] =
     Inr ([] @ filter (\<lambda>p. live_mtime fs p >
             (case map_of ([] :: (string \<times> file_meta) list) (basename p) of None \<Rightarrow> 0
              | Some e \<Rightarrow> (case meta_mtime e of None \<Rightarrow> 0 | Some t \<Rightarrow> t))) pdf_files)"
    using assms(1) by (rule check_files_filter)
  with None show ?thesis
    by (simp add: check_for_updates_def recorded_mtime_def)
next
  case (Some v)
  with assms(2) obtain m where m: "v = Metadata m" by (cases v) auto
  from check_files_filter [OF assms(1), of m "[]"] Some m show ?thesis
    by (simp add: check_for_updates_def recorded_mtime_def)
qed

text \<open>
  C3. When every listed file can be stat'ed and \<open>'_metadata'\<close> is absent or a metadata
  dict, \<open>check_for_updates\<close> returns normally and includes a listed file F exactly when
  F's live modification time is strictly greater than the time recorded for its base
  name (0 when the name or its \<open>mtime\<close> field is absent).
\<close>

theorem check_for_updates_staleness:
  assumes "\<forall>p \<in> set pdf_files. fs p \<noteq> None"
      and "\<forall>ps. map_of pdf_cache ''_metadata'' \<noteq> Some (Pages ps)"
  shows "\<exists>updated. check_for_updates fs pdf_files pdf_cache = Inr updated
           \<and> (\<forall>F. F \<in> set updated \<longleftrightarrow>
                 F \<in> set pdf_files \<and> recorded_mtime pdf_cache (basename F) < live_mtime fs F)"
  using check_for_updates_filter [OF assms] by simp

lemma basename_ab: "basename ''/d/a.pdf'' = ''a.pdf''" "basename ''/d/b.pdf'' = ''b.pdf''"
  by (simp_all add: basename_def)

theorem check_for_updates_staleness_witness:
  "\<exists>updated. check_for_updates fs_two [''/d/a.pdf'', ''/d/b.pdf''] cache_two = Inr updated
      \<and> ''/d/b.pdf'' \<in> set updated \<and> ''/d/a.pdf'' \<notin> set updated"
proof -
  have h1: "\<forall>p \<in> set [''/d/a.pdf'', ''/d/b.pdf'']. fs_two p \<noteq> None"
    by (simp add: fs_two_def)
  have h2: "\<forall>ps. map_of cache_two ''_metadata'' \<noteq> Some (Pages ps)"
    by (simp add: cache_two_def)
  from check_for_updates_staleness [OF h1 h2] obtain updated where
    u: "check_for_updates fs_two [''/d/a.pdf'', ''/d/b.pdf''] cache_two = Inr updated"
    and m: "\<forall>F. F \<in> set updated \<longleftrightarrow>
                 F \<in> set [''/d/a.pdf'', ''/d/b.pdf'']
                 \<and> recorded_mtime cache_two (basename F) < live_mtime fs_two F"
    by blast
  have a: "\<not> recorded_mtime cache_two (basename ''/d/a.pdf'') < live_mtime fs_two ''/d/a.pdf''"
    by (simp add: basename_ab recorded_mtime_def cache_two_def live_mtime_def fs_two_def)
  have b: "recorded_mtime cache_two (basename ''/d/b.pdf'') < live_mtime fs_two ''/d/b.pdf''"
    by (simp add: basename_ab recorded_mtime_def cache_two_def live_mtime_def fs_two_def)
  from m a have "''/d/a.pdf'' \<notin> set updated" by blast
  moreover from m b have "''/d/b.pdf'' \<in> set updated" by simp
  ultimately show ?thesis using u by blast
qed

section \<open>Whole-document failure\<close>

lemma basename_bad: "basename ''/d/bad.pdf'' = ''bad.pdf''"
  by (simp add: basename_def)

text \<open>
  C2. An unreadable document yields the empty page list, and the batch then stores that
  empty list and a metadata record under the document's name: on the next pass the
  document is neither stale nor new.
\<close>

theorem unreadable_document_is_cached:
  "extract_pdf_text_pdfplumber fs_bad ''/d/bad.pdf'' = []
   \<and> process_pdfs_batch fs_bad (\<lambda>k. ''t'') [''/d/bad.pdf''] [''/d/bad.pdf''] [] =
       [(''_metadata'',
           Metadata [(''bad.pdf'', \<lparr>meta_mtime = Some 5, meta_processed_at = Some ''t''\<rparr>)]),
        (''bad.pdf'', Pages [])]
   \<and> check_for_updates fs_bad [''/d/bad.pdf'']
        (process_pdfs_batch fs_bad (\<lambda>k. ''t'') [''/d/bad.pdf''] [''/d/bad.pdf''] []) = Inr []
   \<and> new_files [''/d/bad.pdf'']
        (process_pdfs_batch fs_bad (\<lambda>k. ''t'') [''/d/bad.pdf''] [''/d/bad.pdf''] []) = []"
  by (simp add: fs_bad_def extract_pdf_text_pdfplumber_def process_pdfs_batch_def
      apply_result_def basename_bad check_for_updates_def new_files_def Let_def)

section \<open>Empty keyword\<close>

lemma py_strip_spaces: "\<forall>c \<in> set k. is_space c \<Longrightarrow> py_strip k = []"
proof -
  assume a: "\<forall>c \<in> set k. is_space c"
  then have d: "dropWhile is_space k = []" by simp
  show ?thesis unfolding py_strip_def d by simp
qed

text \<open>
  C9. For a keyword that is empty or consists of whitespace only, \<open>smart_search\<close>
  returns the empty sequence as a normal result, whatever the index and the cache hold,
  and makes no access to either.
\<close>

theorem smart_search_blank_keyword:
  "\<forall>c \<in> set keyword. is_space c \<Longrightarrow>
     smart_search file_path_cache db keyword pdf_cache = (Inr [], [])"
  by (simp add: smart_search_def py_strip_spaces)

theorem smart_search_blank_keyword_witness:
  "smart_search pc0 (create_text_index_db cache_nul) '''' cache_nul = (Inr [], [])
   \<and> smart_search pc0 (create_text_index_db cache_nul) ''   '' cache_nul = (Inr [], [])"
proof -
  have "\<forall>c \<in> set ''''. is_space c" by simp
  moreover have "\<forall>c \<in> set ''   ''. is_space c" by (simp add: is_space_def)
  ultimately show ?thesis using smart_search_blank_keyword by blast
qed

section \<open>Highlighting\<close>

lemma py_in_iff: "py_in k t \<longleftrightarrow> (\<exists>a b. t = a @ k @ b)"
proof (induction t)
  case Nil
  show ?case by auto
next
  case (Cons c cs)
  show ?case
  proof
    assume "py_in k (c # cs)"
    then consider "prefix k (c # cs)" | "py_in k cs" by auto
    then show "\<exists>a b. c # cs = a @ k @ b"
    proof cases
      case 1
      then obtain b where "c # cs = k @ b" by (auto simp: prefix_def)
      then have "c # cs = [] @ k @ b" by simp
      then show ?thesis by blast
    next
      case 2
      with Cons obtain a b where "cs = a @ k @ b" by blast
      then have "c # cs = (c # a) @ k @ b" by simp
      then show ?thesis by blast
    qed
  next
    assume "\<exists>a b. c # cs = a @ k @ b"
    then obtain a b where ab: "c # cs = a @ k @ b" by blast
    show "py_in k (c # cs)"
    proof (cases a)
      case Nil
      with ab have "prefix k (c # cs)" by (simp add: prefix_def)
      then show ?thesis by simp
    next
      case (Cons x a')
      with ab have "cs = a' @ k @ b" by simp
      with Cons.IH have "py_in k cs" by blast
      then show ?thesis by simp
    qed
  qed
qed

lemma py_lower_append: "py_lower (a @ b) = py_lower a @ py_lower b"
  by (simp add: py_lower_def)

lemma snap_end_at_end: "length t \<le> e \<Longrightarrow> snap_end t e = e"
  by (subst snap_end.simps) simp

lemma py_in_Cons: "py_in k cs \<Longrightarrow> py_in k (c # cs)"
  by simp

lemma py_in_prefix: "prefix k t \<Longrightarrow> py_in k t"
  by (cases t) auto

lemma length_py_lower: "length (py_lower s) = length s"
  by (simp add: py_lower_def)

lemma prefix_append_short:
  assumes "prefix k (u @ v)" and "length k \<le> length u"
  shows "prefix k u"
proof -
  from assms(1) obtain z where "u @ v = k @ z" by (auto simp: prefix_def)
  then have "take (length k) (u @ v) = k" by simp
  with assms(2) have "take (length k) u = k" by simp
  then show ?thesis by (metis take_is_prefix)
qed

lemma highlight_no_match:
  "k \<noteq> [] \<Longrightarrow> \<not> py_in (py_lower k) (py_lower t) \<Longrightarrow> highlight k t = t"
proof (induction t)
  case Nil
  then show ?case by (simp add: highlight.simps(1))
next
  case (Cons c cs)
  from Cons.prems(2) have np: "\<not> prefix (py_lower k) (py_lower (c # cs))"
    using py_in_prefix by blast
  from Cons.prems(2) have "\<not> py_in (py_lower k) (py_lower cs)"
    by (simp add: py_lower_def)
  with Cons have "highlight k cs = cs" by blast
  with np Cons.prems(1) show ?case by (simp add: highlight.simps(2))
qed

lemma highlight_first_match:
  assumes "k \<noteq> []" and "length m = length k" and "py_lower m = py_lower k"
      and "\<not> py_in (py_lower k) (py_lower (a @ butlast m))"
  shows "highlight k (a @ m @ b) = a @ span m @ highlight k b"
  using assms(4)
proof (induction a)
  case Nil
  from assms(1,2) obtain c m' where m: "m = c # m'" by (cases m) auto
  from m assms(2) have lk: "length k = Suc (length m')" by simp
  have "prefix (py_lower k) (py_lower (m @ b))"
    using assms(3) by (simp add: py_lower_append)
  with assms(1) show ?case unfolding m by (simp add: lk highlight.simps(2))
next
  case (Cons x a)
  have np: "\<not> prefix (py_lower k) (py_lower (x # a @ m @ b))"
  proof
    assume p: "prefix (py_lower k) (py_lower (x # a @ m @ b))"
    from assms(1,2) have mb: "m = butlast m @ [last m]" by (cases m rule: rev_cases) auto
    have len: "length (py_lower k) \<le> length (py_lower (x # a @ butlast m))"
      using assms(2) by (simp add: length_py_lower)
    have "py_lower (x # a @ m @ b) = py_lower (x # a @ butlast m) @ py_lower (last m # b)"
      by (subst mb) (simp add: py_lower_def)
    with p have "prefix (py_lower k) (py_lower (x # a @ butlast m) @ py_lower (last m # b))"
      by simp
    from this len have "prefix (py_lower k) (py_lower (x # a @ butlast m))"
      by (rule prefix_append_short)
    then have "py_in (py_lower k) (py_lower (x # a @ butlast m))" by (rule py_in_prefix)
    with Cons.prems show False by simp
  qed
  from Cons.prems have "\<not> py_in (py_lower k) (py_lower (a @ butlast m))"
    by (simp add: py_lower_def)
  with Cons.IH have "highlight k (a @ m @ b) = a @ span m @ highlight k b" by blast
  with np assms(1) show ?case by (simp add: highlight.simps(2))
qed

section \<open>Prefilter\<close>

lemma like_match_skip: "like_match q s \<Longrightarrow> like_match (CHR ''%'' # q) s"
  by (cases s) auto

lemma like_match_same_prefix: "like_match q s \<Longrightarrow> like_match (k @ q) (k @ s)"
  by (induction k) (auto simp: like_match_skip)

lemma like_match_percent_prefix: "like_match q s \<Longrightarrow> like_match (CHR ''%'' # q) (a @ s)"
  by (induction a) (auto simp: like_match_skip)

lemma like_match_percent: "like_match ''%'' s"
  by (induction s) auto

lemma like_match_contains: "like_match (''%'' @ k @ ''%'') (a @ k @ b)"
proof -
  have "like_match ''%'' b" by (rule like_match_percent)
  then have "like_match (k @ ''%'') (k @ b)" by (rule like_match_same_prefix)
  then have "like_match (CHR ''%'' # (k @ ''%'')) (a @ (k @ b))"
    by (rule like_match_percent_prefix)
  then show ?thesis by simp
qed

lemma py_join_member: "t \<in> set pages \<Longrightarrow> \<exists>a b. py_join sep pages = a @ t @ b"
proof (induction sep pages rule: py_join.induct)
  case (1 sep)
  then show ?case by simp
next
  case (2 sep x)
  then have "py_join sep [x] = [] @ t @ []" by simp
  then show ?case by blast
next
  case (3 sep x y ys)
  show ?case
  proof (cases "t = x")
    case True
    then have "py_join sep (x # y # ys) = [] @ t @ (sep @ py_join sep (y # ys))" by simp
    then show ?thesis by blast
  next
    case False
    with 3 obtain a b where "py_join sep (y # ys) = a @ t @ b" by auto
    then have "py_join sep (x # y # ys) = (x @ sep @ a) @ t @ b" by simp
    then show ?thesis by blast
  qed
qed

lemma set_py_join: "set (py_join sep pages) \<subseteq> set sep \<union> \<Union> (set ` set pages)"
  by (induction sep pages rule: py_join.induct) auto

lemma lower_char_range: "lower_char c = c \<or> lower_char c \<in> set lower_chars"
  by (auto simp: lower_char_def split: option.splits dest!: map_of_SomeD set_zip_rightD)

lemma lower_char_nul: "lower_char c = CHR 0x00 \<longleftrightarrow> c = CHR 0x00"
proof
  assume a: "lower_char c = CHR 0x00"
  have "CHR 0x00 \<notin> set lower_chars" by (simp add: lower_chars_def)
  with a lower_char_range [of c] show "c = CHR 0x00" by auto
next
  assume "c = CHR 0x00"
  then show "lower_char c = CHR 0x00" by (simp add: lower_char_def upper_chars_def lower_chars_def)
qed

lemma py_lower_nul: "CHR 0x00 \<in> set (py_lower s) \<longleftrightarrow> CHR 0x00 \<in> set s"
proof
  assume "CHR 0x00 \<in> set (py_lower s)"
  then obtain c where "c \<in> set s" "lower_char c = CHR 0x00"
    by (auto simp: py_lower_def)
  then show "CHR 0x00 \<in> set s" by (simp add: lower_char_nul)
next
  assume "CHR 0x00 \<in> set s"
  moreover have "lower_char (CHR 0x00) = CHR 0x00" by (simp add: lower_char_nul)
  ultimately show "CHR 0x00 \<in> set (py_lower s)"
    unfolding py_lower_def by (metis image_eqI set_map)
qed

lemma c_string_id: "CHR 0x00 \<notin> set s \<Longrightarrow> c_string s = s"
  by (auto simp: c_string_def)

lemma index_rows_keeps:
  "r \<in> set rows \<Longrightarrow> fst r \<notin> fst ` set pdf_cache \<Longrightarrow> r \<in> set (index_rows pdf_cache rows)"
proof (induction pdf_cache rows rule: index_rows.induct)
  case (1 rows)
  then show ?case by simp
next
  case (2 pdf_file pages rest rows)
  then show ?case by (auto simp: insert_or_replace_def)
qed

lemma index_rows_member:
  assumes "(D, v) \<in> set pdf_cache" and "D \<noteq> ''_metadata''" and "distinct (map fst pdf_cache)"
  shows "(D, py_lower (py_join '' '' (as_seq v)), length (as_seq v))
           \<in> set (index_rows pdf_cache rows)"
  using assms
proof (induction pdf_cache rows rule: index_rows.induct)
  case (1 rows)
  then show ?case by simp
next
  case (2 pdf_file pages rest rows)
  show ?case
  proof (cases "(D, v) = (pdf_file, pages)")
    case True
    let ?r = "(D, py_lower (py_join '' '' (as_seq v)), length (as_seq v))"
    from True 2 have "fst ?r \<notin> fst ` set rest" by auto
    moreover have "?r \<in> set (insert_or_replace rows ?r)" by (simp add: insert_or_replace_def)
    ultimately have "?r \<in> set (index_rows rest (insert_or_replace rows ?r))"
      by (rule index_rows_keeps [rotated])
    with True 2 show ?thesis by simp
  next
    case False
    with 2 show ?thesis by auto
  qed
qed

text \<open>
  Without NUL characters the prefilter is a superset of the per-page scan: a cached
  document with a page that contains the keyword, case-insensitively, is among the
  candidates whenever the query returns candidates.
\<close>

lemma prefilter_superset_without_nul:
  assumes cached: "(D, v) \<in> set pdf_cache" "D \<noteq> ''_metadata''" "distinct (map fst pdf_cache)"
      and page: "t \<in> set (as_seq v)" "py_in (py_lower K) (py_lower t)"
      and nul: "CHR 0x00 \<notin> set K" "\<forall>p \<in> set (as_seq v). CHR 0x00 \<notin> set p"
      and avail: "search_text_index (create_text_index_db pdf_cache) K = Some candidates"
  shows "D \<in> set candidates"
proof -
  let ?full = "py_lower (py_join '' '' (as_seq v))"
  let ?pat = "''%'' @ py_lower K @ ''%''"
  let ?row = "(D, ?full, length (as_seq v))"
  from cached have row: "?row \<in> set (index_rows pdf_cache [])" by (rule index_rows_member)
  from page(1) obtain a b where "py_join '' '' (as_seq v) = a @ t @ b"
    using py_join_member by blast
  then have full: "?full = py_lower a @ py_lower t @ py_lower b" by (simp add: py_lower_append)
  from page(2) obtain a' b' where "py_lower t = a' @ py_lower K @ b'"
    by (auto simp: py_in_iff)
  with full have "?full = (py_lower a @ a') @ py_lower K @ (b' @ py_lower b)" by simp
  then have m: "like_match ?pat ?full"
    using like_match_contains [of "py_lower K" "py_lower a @ a'" "b' @ py_lower b"] by simp
  have "CHR 0x00 \<notin> set (py_join '' '' (as_seq v))"
    using set_py_join [of "'' ''" "as_seq v"] nul(2) by auto
  then have "CHR 0x00 \<notin> set ?full" by (simp add: py_lower_nul)
  then have c1: "c_string ?full = ?full" by (rule c_string_id)
  from nul(1) have "CHR 0x00 \<notin> set ?pat" by (simp add: py_lower_nul)
  then have c2: "c_string ?pat = ?pat" by (rule c_string_id)
  from m c1 c2 have "sql_like ?pat ?full" by (simp add: sql_like_def)
  with row have mem: "D \<in> set (map fst (filter (\<lambda>row. sql_like ?pat (fst (snd row)))
                       (index_rows pdf_cache [])))"
    by force
  from avail have "candidates = map fst (filter (\<lambda>row. sql_like ?pat (fst (snd row)))
                       (index_rows pdf_cache []))"
    by (simp add: search_text_index_def create_text_index_db_def Let_def split: if_splits)
  with mem show ?thesis by simp
qed

lemmas lower_eval = py_lower_def lower_char_def upper_chars_def lower_chars_def

lemma lower_fox_page: "py_lower ''the quick brown FOX jumps'' = ''the quick brown fox jumps''"
  by (simp add: lower_eval)

lemma lower_fox: "py_lower ''fox'' = ''fox''"
  by (simp add: lower_eval)

lemma lower_nul_text: "py_lower (''a'' @ [CHR 0x00] @ ''b the quick brown FOX jumps'') = ''a'' @ [CHR 0x00] @ ''b the quick brown fox jumps''"
  by (simp add: lower_eval)

lemma scan_finds_fox: "py_in (py_lower ''fox'') (py_lower ''the quick brown FOX jumps'')"
  by (simp add: lower_fox_page lower_fox)

lemma index_of_cache_nul: "create_text_index_db cache_nul = Table [(''d.pdf'', ''a'' @ [CHR 0x00] @ ''b the quick brown fox jumps'', 2)]"
  using lower_nul_text by (simp add: create_text_index_db_def cache_nul_def insert_or_replace_def as_seq_def)

lemma query_cache_nul: "search_text_index (create_text_index_db cache_nul) ''fox'' = Some []"
  by (simp add: index_of_cache_nul search_text_index_def lower_fox utf8_length_def sql_like_def c_string_def Let_def)

lemma strip_fox: "py_strip ''fox'' = ''fox''"
  by (simp add: py_strip_def is_space_def)

lemma search_with_index_cache_nul: "smart_search pc0 (create_text_index_db cache_nul) ''fox'' cache_nul = (Inr [], [QueryIndex ''fox''])"
  by (simp add: smart_search_def strip_fox query_cache_nul)

lemma strip_fox_page: "py_strip ''the quick brown FOX jumps'' = ''the quick brown FOX jumps''"
  by (simp add: py_strip_def is_space_def)

lemma highlight_fox_page:
  "highlight ''fox'' ''the quick brown FOX jumps'' = ''the quick brown '' @ span ''FOX'' @ '' jumps''"
proof -
  have a: "py_lower ''FOX'' = py_lower ''fox''" by (simp add: lower_eval)
  have b: "\<not> py_in (py_lower ''fox'') (py_lower (''the quick brown '' @ butlast ''FOX''))"
    by (simp add: lower_eval)
  have c: "\<not> py_in (py_lower ''fox'') (py_lower '' jumps'')"
    by (simp add: lower_eval)
  have "highlight ''fox'' (''the quick brown '' @ ''FOX'' @ '' jumps'')
        = ''the quick brown '' @ span ''FOX'' @ highlight ''fox'' '' jumps''"
    by (rule highlight_first_match) (use a b in simp_all)
  moreover have "highlight ''fox'' '' jumps'' = '' jumps''"
    by (rule highlight_no_match) (use c in simp_all)
  ultimately show ?thesis by simp
qed

lemma context_fox:
  "context_at ''fox'' ''the quick brown FOX jumps'' ''the quick brown FOX jumps'' 16
     = Inr (''the quick brown '' @ span ''FOX'' @ '' jumps'')"
proof -
  let ?t = "''the quick brown FOX jumps''"
  have s: "snap_start ?t (max 0 (16 - CONTEXT_CHARS)) = Inr 0"
    by (simp add: CONTEXT_CHARS_def)
  have "length ?t \<le> min (length ?t) (16 + length ''fox'' + CONTEXT_CHARS)"
    by (simp add: CONTEXT_CHARS_def)
  then have "snap_end ?t (min (length ?t) (16 + length ''fox'' + CONTEXT_CHARS))
               = min (length ?t) (16 + length ''fox'' + CONTEXT_CHARS)"
    by (rule snap_end_at_end)
  also have "\<dots> = length ?t" by (simp add: CONTEXT_CHARS_def)
  finally have e: "snap_end ?t (min (length ?t) (16 + length ''fox'' + CONTEXT_CHARS)) = length ?t" .
  have "context_at ''fox'' ?t ?t 16 = Inr (highlight ''fox'' (py_strip (take (length ?t - 0) (drop 0 ?t))))"
    unfolding context_at_def s e by (simp only: sum.case Let_def)
  also have "take (length ?t - 0) (drop 0 ?t) = ?t" by simp
  finally show ?thesis by (simp only: strip_fox_page highlight_fox_page)
qed

lemma ctx_fox: "search_with_context ''fox'' ''the quick brown FOX jumps'' ''the quick brown FOX jumps''
   = Inr [''the quick brown '' @ span ''FOX'' @ '' jumps'']"
proof -
  have f: "finditer ''fox'' ''the quick brown fox jumps'' 0 = [16]" by simp
  show ?thesis
    unfolding search_with_context_def lower_fox_page lower_fox f
    by (simp only: contexts_loop.simps context_fox sum.case append.simps)
qed

lemma search_without_index_cache_nul: "smart_search pc0 NoFile ''fox'' cache_nul =
   (Inr [\<lparr>m_file = ''d.pdf'', m_page_number = 2,
          m_context = ''the quick brown '' @ span ''FOX'' @ '' jumps'',
          m_full_text = ''the quick brown FOX jumps'', m_full_path = None\<rparr>],
    [QueryIndex ''fox'', ListKeys, Lookup ''d.pdf''])"
proof -
  have p1: "\<not> py_in (py_lower ''fox'') (py_lower (''a'' @ [CHR 0x00] @ ''b''))"
    by (simp add: lower_fox lower_eval)
  have p2: "py_in (py_lower ''fox'') (py_lower ''the quick brown FOX jumps'')"
    by (simp add: lower_fox_page lower_fox)
  have sp: "search_pages_parallel pc0 ''d.pdf''
          [''a'' @ [CHR 0x00] @ ''b'', ''the quick brown FOX jumps''] ''fox'' =
        Inr [\<lparr>m_file = ''d.pdf'', m_page_number = 2,
          m_context = ''the quick brown '' @ span ''FOX'' @ '' jumps'',
          m_full_text = ''the quick brown FOX jumps'', m_full_path = None\<rparr>]"
    using p1 p2
    by (simp add: search_pages_parallel_def search_single_page_def ctx_fox get_pdf_path_def
        pc0_def del: append.simps)
  show ?thesis
    by (simp add: smart_search_def strip_fox search_text_index_def cache_nul_def as_seq_def sp
        del: append.simps)
qed

text \<open>
  C1. The cached document \<open>d.pdf\<close> has a NUL character on its first page and the
  word FOX on its second. The per-page scan for \<open>fox\<close> finds the second page, but the
  index built from the cache does not return the document: the query is available and
  returns no candidate, so \<open>smart_search\<close> returns nothing, where the scan of the whole
  cache, used when there is no index, returns the match.
\<close>

theorem prefilter_misses_document_with_nul:
  "py_in (py_lower ''fox'') (py_lower ''the quick brown FOX jumps'')
   \<and> search_text_index (create_text_index_db cache_nul) ''fox'' = Some []
   \<and> smart_search pc0 (create_text_index_db cache_nul) ''fox'' cache_nul
       = (Inr [], [QueryIndex ''fox''])
   \<and> smart_search pc0 NoFile ''fox'' cache_nul =
       (Inr [\<lparr>m_file = ''d.pdf'', m_page_number = 2,
              m_context = ''the quick brown '' @ span ''FOX'' @ '' jumps'',
              m_full_text = ''the quick brown FOX jumps'', m_full_path = None\<rparr>],
        [QueryIndex ''fox'', ListKeys, Lookup ''d.pdf''])"
  using scan_finds_fox query_cache_nul search_with_index_cache_nul search_without_index_cache_nul by blast

end
